theory Spec2Isabelle
  imports Main
begin

section \<open>JavaScript strings\<close>

text \<open>
  A JavaScript string is a sequence of UTF-16 code units; a code unit is modelled as a
  natural number (below 65536 in every string the worker can hold) and \<open>length\<close> counts
  code units, as \<^verbatim>\<open>String.prototype.length\<close> does.  String literals of the source
  are written with \<open>lit\<close>.
\<close>

type_synonym jsstring = "nat list"

definition lit :: "string \<Rightarrow> jsstring" where
  "lit s = map of_char s"

text \<open>\<^verbatim>\<open>WhiteSpace\<close> and \<^verbatim>\<open>LineTerminator\<close> of ECMAScript: the characters that
  \<^verbatim>\<open>\s\<close> matches and that \<^verbatim>\<open>trim()\<close> strips.\<close>

definition isWhiteSpace :: "nat \<Rightarrow> bool" where
  "isWhiteSpace c \<longleftrightarrow>
     c = 0x09 \<or> c = 0x0A \<or> c = 0x0B \<or> c = 0x0C \<or> c = 0x0D \<or> c = 0x20 \<or> c = 0xA0 \<or>
     c = 0x1680 \<or> (0x2000 \<le> c \<and> c \<le> 0x200A) \<or> c = 0x2028 \<or> c = 0x2029 \<or>
     c = 0x202F \<or> c = 0x205F \<or> c = 0x3000 \<or> c = 0xFEFF"

text \<open>The characters that \<^verbatim>\<open>.\<close> does not match.\<close>

definition isLineTerminator :: "nat \<Rightarrow> bool" where
  "isLineTerminator c \<longleftrightarrow> c = 0x0A \<or> c = 0x0D \<or> c = 0x2028 \<or> c = 0x2029"

text \<open>\<^verbatim>\<open>s.startsWith(p)\<close>, used by the searching primitives below.\<close>

fun startsWith :: "jsstring \<Rightarrow> jsstring \<Rightarrow> bool" where
  "startsWith s [] = True"
| "startsWith [] (p # ps) = False"
| "startsWith (c # cs) (p # ps) = (c = p \<and> startsWith cs ps)"

text \<open>\<^verbatim>\<open>s.includes(p)\<close>\<close>

fun includes_str :: "jsstring \<Rightarrow> jsstring \<Rightarrow> bool" where
  "includes_str [] p = (p = [])"
| "includes_str (c # cs) p = (startsWith (c # cs) p \<or> includes_str cs p)"

text \<open>\<^verbatim>\<open>s.indexOf(p)\<close>: the first position at which \<open>p\<close> occurs, or \<open>-1\<close>.\<close>

fun indexOf_from :: "nat \<Rightarrow> jsstring \<Rightarrow> jsstring \<Rightarrow> int" where
  "indexOf_from i [] p = (if p = [] then int i else - 1)"
| "indexOf_from i (c # cs) p =
     (if startsWith (c # cs) p then int i else indexOf_from (Suc i) cs p)"

definition indexOf :: "jsstring \<Rightarrow> jsstring \<Rightarrow> int" where
  "indexOf s p = indexOf_from 0 s p"

text \<open>\<^verbatim>\<open>s.substring(a, b)\<close> and \<^verbatim>\<open>s.substring(a)\<close>: both indices are clamped to
  \<open>[0, length s]\<close> and swapped when out of order.\<close>

definition clamp_index :: "jsstring \<Rightarrow> int \<Rightarrow> nat" where
  "clamp_index s i = (if i < 0 then 0 else min (nat i) (length s))"

definition substring :: "jsstring \<Rightarrow> int \<Rightarrow> int \<Rightarrow> jsstring" where
  "substring s a b =
     (let x = clamp_index s a; y = clamp_index s b
      in take (max x y - min x y) (drop (min x y) s))"

definition substring_from :: "jsstring \<Rightarrow> int \<Rightarrow> jsstring" where
  "substring_from s a = drop (clamp_index s a) s"

text \<open>\<^verbatim>\<open>s.trim()\<close>\<close>

definition trim :: "jsstring \<Rightarrow> jsstring" where
  "trim s = rev (dropWhile isWhiteSpace (rev (dropWhile isWhiteSpace s)))"

text \<open>\<^verbatim>\<open>s.split(sep)\<close> for a string separator: the pieces between the non-overlapping
  occurrences of \<open>sep\<close>, found from left to right; an empty separator splits into code
  units.\<close>

function split_from :: "jsstring \<Rightarrow> jsstring \<Rightarrow> jsstring \<Rightarrow> jsstring list" where
  "split_from sep cur [] = [cur]"
| "split_from sep cur (c # cs) =
     (if sep \<noteq> [] \<and> startsWith (c # cs) sep
      then cur # split_from sep [] (drop (length sep) (c # cs))
      else split_from sep (cur @ [c]) cs)"
  by pat_completeness auto
termination
  by (relation "measure (\<lambda>(sep, cur, s). length s)") auto

definition split :: "jsstring \<Rightarrow> jsstring \<Rightarrow> jsstring list" where
  "split s sep = (if sep = [] then map (\<lambda>c. [c]) s else split_from sep [] s)"

section \<open>Regular expressions of the worker\<close>

text \<open>
  Every regular expression of the worker is a sequence of single-character classes, each
  with a quantifier, and at most one capturing group, around one of them.  \<open>match_items\<close>
  is the backtracking matcher of ECMAScript restricted to that shape: a quantifier is
  greedy and gives characters back one at a time.  It returns the length of the match and
  the text of group 1.
\<close>

datatype quant = Rep nat "nat option"

abbreviation One :: quant where "One \<equiv> Rep 1 (Some 1)"
abbreviation Opt :: quant where "Opt \<equiv> Rep 0 (Some 1)"
abbreviation Star :: quant where "Star \<equiv> Rep 0 None"
abbreviation Plus :: quant where "Plus \<equiv> Rep 1 None"

type_synonym item = "(nat \<Rightarrow> bool) \<times> quant \<times> bool"

text \<open>The repetition counts a quantified class may take at the head of \<open>s\<close>, in the order
  the matcher tries them: longest first.\<close>

fun counts :: "(nat \<Rightarrow> bool) \<Rightarrow> quant \<Rightarrow> jsstring \<Rightarrow> nat list" where
  "counts cls (Rep lo hi) s =
     (let n = length (takeWhile cls s);
          top = (case hi of None \<Rightarrow> n | Some h \<Rightarrow> min h n)
      in rev [lo ..< Suc top])"

fun match_items :: "item list \<Rightarrow> jsstring \<Rightarrow> (nat \<times> jsstring) option"
  and try_counts :: "bool \<Rightarrow> item list \<Rightarrow> jsstring \<Rightarrow> nat list \<Rightarrow> (nat \<times> jsstring) option"
where
  "match_items [] s = Some (0, [])"
| "match_items ((cls, q, cap) # its) s = try_counts cap its s (counts cls q s)"
| "try_counts cap its s [] = None"
| "try_counts cap its s (k # ks) =
     (case match_items its (drop k s) of
        Some (n, g) \<Rightarrow> Some (k + n, if cap then take k s else g)
      | None \<Rightarrow> try_counts cap its s ks)"

text \<open>\<^verbatim>\<open>s.match(re)?.[1]\<close> for a regular expression without the \<^verbatim>\<open>g\<close> flag: the start
  positions are tried from left to right.\<close>

fun exec_regex :: "item list \<Rightarrow> jsstring \<Rightarrow> jsstring option" where
  "exec_regex its [] = map_option snd (match_items its [])"
| "exec_regex its (c # cs) =
     (case match_items its (c # cs) of
        Some (n, g) \<Rightarrow> Some g
      | None \<Rightarrow> exec_regex its cs)"

text \<open>\<^verbatim>\<open>s.replace(re, f)\<close> for a regular expression with the \<^verbatim>\<open>g\<close> flag: one pass from
  left to right over non-overlapping matches; \<open>f\<close> gets the text of group 1.  After an
  empty match the scan moves one code unit on.\<close>

function replace_regex :: "item list \<Rightarrow> (jsstring \<Rightarrow> jsstring) \<Rightarrow> jsstring \<Rightarrow> jsstring" where
  "replace_regex its f [] =
     (case match_items its [] of Some (n, g) \<Rightarrow> f g | None \<Rightarrow> [])"
| "replace_regex its f (c # cs) =
     (case match_items its (c # cs) of
        Some (n, g) \<Rightarrow>
          (if n = 0 then f g @ c # replace_regex its f cs
           else f g @ replace_regex its f (drop n (c # cs)))
      | None \<Rightarrow> c # replace_regex its f cs)"
  by pat_completeness auto
termination
  by (relation "measure (\<lambda>(its, f, s). length s)") auto

text \<open>A literal character, and a literal under the \<^verbatim>\<open>i\<close> flag (without \<^verbatim>\<open>u\<close>): two
  code units match when their canonical forms agree.  For the ASCII literals of the
  worker that is equality up to the case of ASCII letters, since no code unit above 127 is
  canonicalised into ASCII.\<close>

definition chr :: "nat \<Rightarrow> item" where
  "chr p = (\<lambda>c. c = p, One, False)"

definition ascii_upper :: "nat \<Rightarrow> nat" where
  "ascii_upper c = (if 0x61 \<le> c \<and> c \<le> 0x7A then c - 0x20 else c)"

definition ci_char :: "char \<Rightarrow> item" where
  "ci_char p = (\<lambda>c. ascii_upper c = ascii_upper (of_char p), One, False)"

definition ci_literal :: "string \<Rightarrow> item list" where
  "ci_literal s = map ci_char s"

definition isQuote :: "nat \<Rightarrow> bool" where
  "isQuote c \<longleftrightarrow> c = 0x22 \<or> c = 0x27"

text \<open>\<^verbatim>\<open>/boundary=["']?([^"'\s]+)["']?/i\<close>\<close>

definition boundary_re :: "item list" where
  "boundary_re = ci_literal ''boundary='' @
     [(isQuote, Opt, False),
      (\<lambda>c. \<not> isQuote c \<and> \<not> isWhiteSpace c, Plus, True),
      (isQuote, Opt, False)]"

text \<open>\<^verbatim>\<open>/Content-Transfer-Encoding:\s*(.+)/i\<close>\<close>

definition transfer_encoding_re :: "item list" where
  "transfer_encoding_re = ci_literal ''Content-Transfer-Encoding:'' @
     [(isWhiteSpace, Star, False),
      (\<lambda>c. \<not> isLineTerminator c, Plus, True)]"

text \<open>\<^verbatim>\<open>/Content-Type:\s*([^;]+)/i\<close>\<close>

definition content_type_re :: "item list" where
  "content_type_re = ci_literal ''Content-Type:'' @
     [(isWhiteSpace, Star, False),
      (\<lambda>c. c \<noteq> 0x3B, Plus, True)]"

text \<open>The least number of code units a match of a regular expression takes.\<close>

fun min_reps :: "item \<Rightarrow> nat" where
  "min_reps (cls, Rep lo hi, cap) = lo"

definition min_len :: "item list \<Rightarrow> nat" where
  "min_len its = sum_list (map min_reps its)"

section \<open>Platform decoders\<close>

text \<open>
  The worker calls three decoders of its runtime: \<^verbatim>\<open>atob\<close>,
  \<^verbatim>\<open>new TextDecoder("utf-8", { fatal: true })\<close> and \<^verbatim>\<open>new TextDecoder("latin1")\<close>.
  What they throw is a value of \<open>exn\<close>; a computation that may throw returns
  \<open>exn + 'a\<close>.  The two errors that \<^verbatim>\<open>sendTelegramMessage\<close> constructs carry the
  values interpolated into their messages: \<^verbatim>\<open>Telegram API error: ${description} (code:
  ${error_code})\<close> and \<^verbatim>\<open>Failed after ${maxRetries} attempts: ${description}\<close>.
\<close>

datatype exn =
    InvalidCharacterError
  | TypeError
  | NetworkError
  | TelegramApiError "jsstring option" "int option"
  | FailedAfterAttempts nat "jsstring option"

text \<open>\<^verbatim>\<open>try { a } catch (e) { h(e) }\<close>\<close>

definition try_catch :: "exn + 'a \<Rightarrow> (exn \<Rightarrow> exn + 'a) \<Rightarrow> exn + 'a" where
  "try_catch a h = (case a of Inl e \<Rightarrow> h e | Inr v \<Rightarrow> Inr v)"

subsection \<open>\<^verbatim>\<open>atob\<close>: forgiving base64 decoding\<close>

definition isAsciiWhitespace :: "nat \<Rightarrow> bool" where
  "isAsciiWhitespace c \<longleftrightarrow> c = 0x09 \<or> c = 0x0A \<or> c = 0x0C \<or> c = 0x0D \<or> c = 0x20"

definition b64_value :: "nat \<Rightarrow> nat option" where
  "b64_value c =
     (if 0x41 \<le> c \<and> c \<le> 0x5A then Some (c - 0x41)
      else if 0x61 \<le> c \<and> c \<le> 0x7A then Some (c - 0x61 + 26)
      else if 0x30 \<le> c \<and> c \<le> 0x39 then Some (c - 0x30 + 52)
      else if c = 0x2B then Some 62
      else if c = 0x2F then Some 63
      else None)"

text \<open>When the length is a multiple of four, one or two trailing \<^verbatim>\<open>=\<close> are removed.\<close>

definition strip_padding :: "jsstring \<Rightarrow> jsstring" where
  "strip_padding d =
     (if length d mod 4 = 0 \<and> d \<noteq> [] \<and> last d = 0x3D
      then (if butlast d \<noteq> [] \<and> last (butlast d) = 0x3D then butlast (butlast d) else butlast d)
      else d)"

text \<open>Four sextets give three bytes; a rest of three sextets gives two bytes and a
  rest of two gives one, the surplus bits being discarded.\<close>

fun b64_bytes :: "nat list \<Rightarrow> nat list" where
  "b64_bytes (a # b # c # d # rest) =
     (let n = ((a * 64 + b) * 64 + c) * 64 + d
      in n div 65536 # (n div 256) mod 256 # n mod 256 # b64_bytes rest)"
| "b64_bytes [a, b, c] = (let n = (a * 64 + b) * 64 + c in [n div 1024, (n div 4) mod 256])"
| "b64_bytes [a, b] = (let n = a * 64 + b in [n div 16])"
| "b64_bytes [a] = []"
| "b64_bytes [] = []"

text \<open>The result of \<^verbatim>\<open>atob\<close> is a binary string: one code unit below 256 per byte.\<close>

definition atob :: "jsstring \<Rightarrow> exn + jsstring" where
  "atob d =
     (let d1 = filter (\<lambda>c. \<not> isAsciiWhitespace c) d;
          d2 = strip_padding d1
      in if length d2 mod 4 = 1 then Inl InvalidCharacterError
         else case those (map b64_value d2) of
                None \<Rightarrow> Inl InvalidCharacterError
              | Some vs \<Rightarrow> Inr (b64_bytes vs))"

subsection \<open>UTF-8 with \<^verbatim>\<open>fatal: true\<close>\<close>

definition cont_byte :: "nat \<Rightarrow> bool" where
  "cont_byte b \<longleftrightarrow> 0x80 \<le> b \<and> b \<le> 0xBF"

text \<open>The bounds of the second byte of a sequence, which exclude overlong forms,
  surrogates and code points above \<open>0x10FFFF\<close>.\<close>

definition second_lower :: "nat \<Rightarrow> nat" where
  "second_lower b0 = (if b0 = 0xE0 then 0xA0 else if b0 = 0xF0 then 0x90 else 0x80)"

definition second_upper :: "nat \<Rightarrow> nat" where
  "second_upper b0 = (if b0 = 0xED then 0x9F else if b0 = 0xF4 then 0x8F else 0xBF)"

text \<open>The code points of a well-formed UTF-8 byte sequence; \<open>None\<close> for an ill-formed
  one, on which a fatal decoder throws.\<close>

fun utf8_decode :: "nat list \<Rightarrow> nat list option" where
  "utf8_decode [] = Some []"
| "utf8_decode (b0 # bs) =
     (if b0 < 0x80 then map_option ((#) b0) (utf8_decode bs)
      else if 0xC2 \<le> b0 \<and> b0 \<le> 0xDF then
        (case bs of
           b1 # r \<Rightarrow>
             if cont_byte b1
             then map_option ((#) ((b0 - 0xC0) * 64 + (b1 - 0x80))) (utf8_decode r)
             else None
         | _ \<Rightarrow> None)
      else if 0xE0 \<le> b0 \<and> b0 \<le> 0xEF then
        (case bs of
           b1 # b2 # r \<Rightarrow>
             if second_lower b0 \<le> b1 \<and> b1 \<le> second_upper b0 \<and> cont_byte b2
             then map_option ((#) (((b0 - 0xE0) * 64 + (b1 - 0x80)) * 64 + (b2 - 0x80)))
                    (utf8_decode r)
             else None
         | _ \<Rightarrow> None)
      else if 0xF0 \<le> b0 \<and> b0 \<le> 0xF4 then
        (case bs of
           b1 # b2 # b3 # r \<Rightarrow>
             if second_lower b0 \<le> b1 \<and> b1 \<le> second_upper b0 \<and> cont_byte b2 \<and> cont_byte b3
             then map_option
                    ((#) ((((b0 - 0xF0) * 64 + (b1 - 0x80)) * 64 + (b2 - 0x80)) * 64 + (b3 - 0x80)))
                    (utf8_decode r)
             else None
         | _ \<Rightarrow> None)
      else None)"

text \<open>A code point as UTF-16 code units.\<close>

definition utf16_units :: "nat \<Rightarrow> jsstring" where
  "utf16_units cp =
     (if cp < 0x10000 then [cp]
      else [0xD800 + (cp - 0x10000) div 0x400, 0xDC00 + (cp - 0x10000) mod 0x400])"

definition utf16_encode :: "nat list \<Rightarrow> jsstring" where
  "utf16_encode cps = concat (map utf16_units cps)"

text \<open>The decoder is constructed without \<^verbatim>\<open>ignoreBOM\<close>, so a leading byte order mark
  is not part of its output.\<close>

definition strip_bom :: "nat list \<Rightarrow> nat list" where
  "strip_bom cps = (case cps of [] \<Rightarrow> [] | c # r \<Rightarrow> if c = 0xFEFF then r else cps)"

definition utf8_decode_fatal :: "nat list \<Rightarrow> exn + jsstring" where
  "utf8_decode_fatal bytes =
     (case utf8_decode bytes of
        None \<Rightarrow> Inl TypeError
      | Some cps \<Rightarrow> Inr (utf16_encode (strip_bom cps)))"

subsection \<open>The single-byte decoder\<close>

text \<open>The decoder that the label \<^verbatim>\<open>latin1\<close> selects gives one code unit per byte and
  never throws.  In the Encoding Standard, which the runtime follows, that label names
  windows-1252: its table \<open>windows_1252\<close> is that of Latin-1, where the code unit is the
  byte, except on the bytes \<open>80\<close> to \<open>9F\<close>, listed in \<open>windows_1252_high\<close>.  The
  functions that reach the decoder take its table as their parameter \<open>tbl\<close>, so that what
  does not depend on the table is stated for every table.\<close>

definition windows_1252_high :: "nat list" where
  "windows_1252_high =
     [0x20AC, 0x0081, 0x201A, 0x0192, 0x201E, 0x2026, 0x2020, 0x2021,
      0x02C6, 0x2030, 0x0160, 0x2039, 0x0152, 0x008D, 0x017D, 0x008F,
      0x0090, 0x2018, 0x2019, 0x201C, 0x201D, 0x2022, 0x2013, 0x2014,
      0x02DC, 0x2122, 0x0161, 0x203A, 0x0153, 0x009D, 0x017E, 0x0178]"

definition windows_1252 :: "nat \<Rightarrow> nat" where
  "windows_1252 b = (if 0x80 \<le> b \<and> b < 0xA0 then windows_1252_high ! (b - 0x80) else b)"

definition single_byte_decode :: "(nat \<Rightarrow> nat) \<Rightarrow> nat list \<Rightarrow> exn + jsstring" where
  "single_byte_decode tbl bytes = Inr (map tbl bytes)"

section \<open>Content decoder\<close>

text \<open>\<^verbatim>\<open>decodeBase64Content\<close>: the outer \<^verbatim>\<open>try\<close> covers the whitespace removal,
  \<^verbatim>\<open>atob\<close>, the copy into a \<^verbatim>\<open>Uint8Array\<close> (which stores each code unit modulo 256)
  and the inner \<^verbatim>\<open>try\<close>.\<close>

definition decodeBase64Content :: "(nat \<Rightarrow> nat) \<Rightarrow> jsstring \<Rightarrow> exn + jsstring" where
  "decodeBase64Content tbl content =
     try_catch
       (let cleanedContent = replace_regex [(isWhiteSpace, One, False)] (\<lambda>g. []) content
        in case atob cleanedContent of
             Inl e \<Rightarrow> Inl e
           | Inr binaryString \<Rightarrow>
               (let bytes = map (\<lambda>c. c mod 256) binaryString
                in try_catch (utf8_decode_fatal bytes)
                     (\<lambda>utfError. single_byte_decode tbl bytes)))
       (\<lambda>error. Inr content)"

definition isHexDigit :: "nat \<Rightarrow> bool" where
  "isHexDigit c \<longleftrightarrow>
     (0x30 \<le> c \<and> c \<le> 0x39) \<or> (0x41 \<le> c \<and> c \<le> 0x46) \<or> (0x61 \<le> c \<and> c \<le> 0x66)"

definition hex_value :: "nat \<Rightarrow> nat" where
  "hex_value c =
     (if 0x30 \<le> c \<and> c \<le> 0x39 then c - 0x30
      else if 0x41 \<le> c \<and> c \<le> 0x46 then c - 0x41 + 10
      else c - 0x61 + 10)"

text \<open>\<^verbatim>\<open>parseInt(hex, 16)\<close> on a string of hexadecimal digits.\<close>

definition parseInt16 :: "jsstring \<Rightarrow> nat" where
  "parseInt16 hex = foldl (\<lambda>a c. a * 16 + hex_value c) 0 hex"

text \<open>\<^verbatim>\<open>decodeQuotedPrintable\<close>: \<^verbatim>\<open>/=\r?\n/g\<close> removed, then each
  \<^verbatim>\<open>/=([A-F0-9]{2})/gi\<close> replaced by \<^verbatim>\<open>String.fromCharCode(parseInt(hex, 16))\<close>.\<close>

definition decodeQuotedPrintable :: "jsstring \<Rightarrow> jsstring" where
  "decodeQuotedPrintable content =
     replace_regex [chr 0x3D, (isHexDigit, Rep 2 (Some 2), True)] (\<lambda>hex. [parseInt16 hex])
       (replace_regex [chr 0x3D, (\<lambda>c. c = 0x0D, Opt, False), chr 0x0A] (\<lambda>g. []) content)"

text \<open>\<^verbatim>\<open>toLowerCase\<close>, as far as a comparison with an ASCII literal can tell: the
  code units that lower-case into ASCII are the letters \<open>A\<close> to \<open>Z\<close>, the Kelvin sign
  and (with a combining dot) the dotted capital I; every other code unit is lower-cased
  to code units above 127 and is left as it is here.\<close>

definition toLowerCase_unit :: "nat \<Rightarrow> jsstring" where
  "toLowerCase_unit c =
     (if 0x41 \<le> c \<and> c \<le> 0x5A then [c + 0x20]
      else if c = 0x212A then [0x6B]
      else if c = 0x0130 then [0x69, 0x0307]
      else [c])"

definition toLowerCase :: "jsstring \<Rightarrow> jsstring" where
  "toLowerCase s = concat (map toLowerCase_unit s)"

text \<open>\<^verbatim>\<open>decodeContent\<close>; an absent encoding is \<open>None\<close>.\<close>

definition decodeContent :: "(nat \<Rightarrow> nat) \<Rightarrow> jsstring \<Rightarrow> jsstring option \<Rightarrow> exn + jsstring" where
  "decodeContent tbl content encoding =
     (if content = [] then Inr []
      else try_catch
             (let e = map_option toLowerCase encoding
              in if e = Some (lit ''base64'') then decodeBase64Content tbl content
                 else if e = Some (lit ''quoted-printable'')
                   then Inr (decodeQuotedPrintable content)
                 else Inr content)
             (\<lambda>error. Inr content))"

section \<open>MIME extractor\<close>

record extracted =
  body :: jsstring
  contentType :: jsstring

definition crlf_crlf :: jsstring where
  "crlf_crlf = [0x0D, 0x0A, 0x0D, 0x0A]"

text \<open>The two header reads shared by \<^verbatim>\<open>extractSimpleEmailBody\<close> and
  \<^verbatim>\<open>extractPartContent\<close>: \<^verbatim>\<open>headers.match(re)?.[1]?.trim()\<close>, the content type with
  \<^verbatim>\<open>|| "text/plain"\<close>.\<close>

definition header_encoding :: "jsstring \<Rightarrow> jsstring option" where
  "header_encoding headers = map_option trim (exec_regex transfer_encoding_re headers)"

definition header_contentType :: "jsstring \<Rightarrow> jsstring" where
  "header_contentType headers =
     (case map_option trim (exec_regex content_type_re headers) of
        None \<Rightarrow> lit ''text/plain''
      | Some t \<Rightarrow> if t = [] then lit ''text/plain'' else t)"

definition extractSimpleEmailBody :: "(nat \<Rightarrow> nat) \<Rightarrow> jsstring \<Rightarrow> exn + extracted" where
  "extractSimpleEmailBody tbl rawEmail =
     (let headerEndIndex = indexOf rawEmail crlf_crlf
      in if headerEndIndex = - 1
         then Inr \<lparr>body = lit ''No body content found'', contentType = lit ''text/plain''\<rparr>
         else
           (let headers = substring rawEmail 0 headerEndIndex;
                body = trim (substring_from rawEmail (headerEndIndex + 4));
                encoding = header_encoding headers;
                contentType = header_contentType headers
            in case decodeContent tbl body encoding of
                 Inl e \<Rightarrow> Inl e
               | Inr b \<Rightarrow> Inr \<lparr>body = b, contentType = contentType\<rparr>))"

definition getPartScore :: "jsstring \<Rightarrow> nat" where
  "getPartScore part =
     (if includes_str part (lit ''Content-Type: text/plain'') then 3
      else if includes_str part (lit ''Content-Type: text/html'') then 2
      else if includes_str part (lit ''Content-Type: text/'') then 1
      else 0)"

definition extractPartContent :: "(nat \<Rightarrow> nat) \<Rightarrow> jsstring \<Rightarrow> exn + extracted" where
  "extractPartContent tbl part =
     (let headerEndIndex = indexOf part crlf_crlf
      in if headerEndIndex = - 1
         then Inr \<lparr>body = lit ''Invalid part format'', contentType = lit ''text/plain''\<rparr>
         else
           (let headers = substring part 0 headerEndIndex;
                content = trim (substring_from part (headerEndIndex + 4));
                encoding = header_encoding headers;
                contentType = header_contentType headers
            in case decodeContent tbl content encoding of
                 Inl e \<Rightarrow> Inl e
               | Inr b \<Rightarrow> Inr \<lparr>body = b, contentType = contentType\<rparr>))"

text \<open>The loop of \<^verbatim>\<open>extractEmailContent\<close> over the parts, with its two variables
  \<^verbatim>\<open>bestPart\<close> (\<open>None\<close> for \<^verbatim>\<open>null\<close>) and \<^verbatim>\<open>bestScore\<close>.\<close>

fun select_part :: "jsstring list \<Rightarrow> jsstring option \<Rightarrow> nat \<Rightarrow> jsstring option" where
  "select_part [] bestPart bestScore = bestPart"
| "select_part (part # parts) bestPart bestScore =
     (let score = getPartScore part
      in if score > bestScore then select_part parts (Some part) score
         else select_part parts bestPart bestScore)"

definition no_readable_content :: extracted where
  "no_readable_content =
     \<lparr>body = lit ''No readable content found'', contentType = lit ''text/plain''\<rparr>"

text \<open>\<^verbatim>\<open>extractEmailContent\<close>.  Its argument is the string that \<^verbatim>\<open>streamToString\<close>
  returned; the empty string is the falsy one.  The test \<^verbatim>\<open>bestPart ? ... : ...\<close> is
  false for \<^verbatim>\<open>null\<close> and for the empty string.\<close>

definition extractEmailContent :: "(nat \<Rightarrow> nat) \<Rightarrow> jsstring \<Rightarrow> exn + extracted" where
  "extractEmailContent tbl rawEmail =
     (if rawEmail = []
      then Inr \<lparr>body = lit ''Invalid email content'', contentType = lit ''text/plain''\<rparr>
      else case exec_regex boundary_re rawEmail of
             None \<Rightarrow> extractSimpleEmailBody tbl rawEmail
           | Some boundary \<Rightarrow>
               (let parts = split rawEmail (lit ''--'' @ boundary)
                in case select_part parts None 0 of
                     None \<Rightarrow> Inr no_readable_content
                   | Some bestPart \<Rightarrow>
                       if bestPart = [] then Inr no_readable_content
                       else extractPartContent tbl bestPart))"

section \<open>Text normalizer\<close>

definition literal_re :: "jsstring \<Rightarrow> item list" where
  "literal_re p = map chr p"

text \<open>The repairs of \<^verbatim>\<open>cleanText\<close> after the line-ending steps, in the order of the
  source: pattern and replacement.\<close>

definition repairs :: "(jsstring \<times> jsstring) list" where
  "repairs =
     [([0xE2, 0xAF], [0x20]),
      ([0xC3, 0xA9], [0xE9]),
      ([0xC3, 0x20], [0xE0]),
      ([0xC3, 0xA8], [0xE8]),
      ([0xC3, 0xB9], [0xF9]),
      ([0xC3, 0xA7], [0xE7]),
      ([0xC3, 0xB4], [0xF4]),
      ([0xC3, 0xAE], [0xEE]),
      ([0xC3, 0xA2], [0xE2]),
      ([0xC3, 0xAB], [0xEB]),
      ([0xC3, 0xAF], [0xEF]),
      ([0xC3, 0xBC], [0xFC]),
      ([0xC3, 0xB6], [0xF6]),
      ([0xC3, 0xA4], [0xE4]),
      ([0xC3], [0xC0]),
      ([0xE2], [0x27]),
      ([0xE2], [0x27]),
      ([0xE2], [0x22]),
      ([0xE2], [0x22]),
      ([0xE2], [0x2014]),
      ([0xE2], [0x2013])]"

definition repair :: "jsstring \<times> jsstring \<Rightarrow> jsstring \<Rightarrow> jsstring" where
  "repair pr s = replace_regex (literal_re (fst pr)) (\<lambda>g. snd pr) s"

text \<open>The first three steps of the chain: \<^verbatim>\<open>/\r\n/g\<close> and \<^verbatim>\<open>/\r/g\<close> to a newline,
  \<^verbatim>\<open>/\n{3,}/g\<close> to two newlines.\<close>

definition normalized_lines :: "jsstring \<Rightarrow> jsstring" where
  "normalized_lines text' =
     replace_regex [(\<lambda>c. c = 0x0A, Rep 3 None, False)] (\<lambda>g. [0x0A, 0x0A])
       (replace_regex [chr 0x0D] (\<lambda>g. [0x0A])
         (replace_regex [chr 0x0D, chr 0x0A] (\<lambda>g. [0x0A]) text'))"

text \<open>The value of \<^verbatim>\<open>cleaned\<close> before the length test: the three steps, the repairs,
  \<^verbatim>\<open>trim()\<close>.\<close>

definition cleaned :: "jsstring \<Rightarrow> jsstring" where
  "cleaned text' = trim (fold repair repairs (normalized_lines text'))"

definition truncation_marker :: jsstring where
  "truncation_marker =
     lit ''...'' @ [0x0A, 0x0A, 0xD83D, 0xDD3D] @ lit '' *Full content available in attached file*''"

text \<open>\<^verbatim>\<open>cleanText\<close>; \<open>maxLength\<close> is an integer, and \<open>MAX_BODY_LENGTH\<close> is the value
  it has when the caller gives none.\<close>

definition MAX_BODY_LENGTH :: int where
  "MAX_BODY_LENGTH = 4000"

definition cleanText :: "jsstring \<Rightarrow> int \<Rightarrow> jsstring" where
  "cleanText text' maxLength =
     (if text' = [] then []
      else if int (length (cleaned text')) > maxLength
        then substring (cleaned text') 0 maxLength @ truncation_marker
        else cleaned text')"

section \<open>Rate limiter\<close>














section \<open>Message transport client\<close>

record payload =
  chat_id :: jsstring
  message_text :: jsstring
  parse_mode :: "jsstring option"
  disable_web_page_preview :: bool

record responseData =
  error_code :: "int option"
  description :: "jsstring option"

text \<open>What \<^verbatim>\<open>await fetch(url, ...)\<close> gives: a rejection, or a response with its
  \<^verbatim>\<open>ok\<close> flag and the result of \<^verbatim>\<open>response.json()\<close>, which may throw as well.  The
  transport answers the \<open>n\<close>-th request of a send (counted from 0) according to its payload.\<close>

datatype fetch_result = Rejected exn | Response bool "exn + responseData"

type_synonym transport = "nat \<Rightarrow> payload \<Rightarrow> fetch_result"

text \<open>The effects of a send: the requests made and the delays waited (in milliseconds),
  in order.\<close>

record net =
  calls :: "payload list"
  sleeps :: "nat list"

definition do_fetch :: "transport \<Rightarrow> payload \<Rightarrow> net \<Rightarrow> fetch_result \<times> net" where
  "do_fetch fetch p n = (fetch (length (calls n)) p, n\<lparr>calls := calls n @ [p]\<rparr>)"

definition backoff :: "nat \<Rightarrow> net \<Rightarrow> net" where
  "backoff attempt n = n\<lparr>sleeps := sleeps n @ [2 ^ attempt * 1000]\<rparr>"

definition maxRetries :: nat where
  "maxRetries = 3"

datatype outcome = Return bool | Throw exn | Next

definition is_parse_mode_error :: "responseData \<Rightarrow> bool" where
  "is_parse_mode_error responseData \<longleftrightarrow>
     error_code responseData = Some 400 \<and>
     (case description responseData of
        None \<Rightarrow> False
      | Some d \<Rightarrow> includes_str d (lit ''parse_mode''))"

text \<open>The statements after the error log of an attempt whose response was not \<^verbatim>\<open>ok\<close>:
  from \<^verbatim>\<open>// Don't retry on certain errors\<close> to the end of the \<^verbatim>\<open>try\<close> block.\<close>

definition after_fallback :: "nat \<Rightarrow> responseData \<Rightarrow> net \<Rightarrow> outcome \<times> net" where
  "after_fallback attempt responseData n =
     (if error_code responseData = Some 404 \<or> error_code responseData = Some 403
      then (Throw (TelegramApiError (description responseData) (error_code responseData)), n)
      else if attempt = maxRetries
        then (Throw (FailedAfterAttempts maxRetries (description responseData)), n)
        else (Next, backoff attempt n))"

text \<open>The \<^verbatim>\<open>try\<close> block of one attempt; \<open>options\<close> is the spread \<^verbatim>\<open>...options\<close> over
  the payload.\<close>

definition try_block ::
  "transport \<Rightarrow> (payload \<Rightarrow> payload) \<Rightarrow> jsstring \<Rightarrow> jsstring \<Rightarrow> nat \<Rightarrow> net \<Rightarrow> outcome \<times> net" where
  "try_block fetch options chatId text' attempt n =
     (let payload = options \<lparr>chat_id = chatId, message_text = text',
                             parse_mode = Some (lit ''MarkdownV2''),
                             disable_web_page_preview = True\<rparr>;
          (response, n1) = do_fetch fetch payload n
      in case response of
           Rejected e \<Rightarrow> (Throw e, n1)
         | Response ok js \<Rightarrow>
             (case js of
                Inl e \<Rightarrow> (Throw e, n1)
              | Inr responseData \<Rightarrow>
                  if ok then (Return True, n1)
                  else if is_parse_mode_error responseData then
                    (let plainPayload = payload\<lparr>parse_mode := None\<rparr>;
                         (plainResponse, n2) = do_fetch fetch plainPayload n1
                     in case plainResponse of
                          Rejected e \<Rightarrow> (Throw e, n2)
                        | Response plainOk plainJs \<Rightarrow>
                            if plainOk then (Return True, n2)
                            else after_fallback attempt responseData n2)
                  else after_fallback attempt responseData n1))"

text \<open>One iteration of the loop: the \<^verbatim>\<open>try\<close> block and its \<^verbatim>\<open>catch\<close>, which
  receives whatever the block throws.\<close>

definition attempt_step ::
  "transport \<Rightarrow> (payload \<Rightarrow> payload) \<Rightarrow> jsstring \<Rightarrow> jsstring \<Rightarrow> nat \<Rightarrow> net \<Rightarrow> outcome \<times> net" where
  "attempt_step fetch options chatId text' attempt n =
     (case try_block fetch options chatId text' attempt n of
        (Throw error, n1) \<Rightarrow>
          if attempt = maxRetries then (Throw error, n1) else (Next, backoff attempt n1)
      | (out, n1) \<Rightarrow> (out, n1))"

function send_loop ::
  "transport \<Rightarrow> (payload \<Rightarrow> payload) \<Rightarrow> jsstring \<Rightarrow> jsstring \<Rightarrow> nat \<Rightarrow> net \<Rightarrow> (exn + bool) \<times> net" where
  "send_loop fetch options chatId text' attempt n =
     (if attempt \<le> maxRetries
      then (case attempt_step fetch options chatId text' attempt n of
              (Return b, n1) \<Rightarrow> (Inr b, n1)
            | (Throw e, n1) \<Rightarrow> (Inl e, n1)
            | (Next, n1) \<Rightarrow> send_loop fetch options chatId text' (attempt + 1) n1)
      else (Inr False, n))"
  by pat_completeness auto
termination
  by (relation "measure (\<lambda>(fetch, options, chatId, text', attempt, n). maxRetries + 1 - attempt)")
     auto

text \<open>\<^verbatim>\<open>sendTelegramMessage\<close>: the result (or what it throws) and the effects.\<close>

definition sendTelegramMessage ::
  "transport \<Rightarrow> (payload \<Rightarrow> payload) \<Rightarrow> jsstring \<Rightarrow> jsstring \<Rightarrow> (exn + bool) \<times> net" where
  "sendTelegramMessage fetch options chatId text' =
     (if text' = [] \<or> length (trim text') = 0 then (Inr False, \<lparr>calls = [], sleeps = []\<rparr>)
      else send_loop fetch options chatId text' 1 \<lparr>calls = [], sleeps = []\<rparr>)"

section \<open>Encoders of the round trip\<close>







section \<open>Example inputs\<close>














text \<open>A transport that answers every request with \<^verbatim>\<open>404 Not Found\<close>, and one that
  rejects the markup of the first request and accepts the second.\<close>

definition always_not_found :: transport where
  "always_not_found i p =
     Response False (Inr \<lparr>error_code = Some 404, description = Some (lit ''Not Found'')\<rparr>)"

definition rejects_markup :: transport where
  "rejects_markup i p =
     (if parse_mode p = None then Response True (Inr \<lparr>error_code = None, description = None\<rparr>)
      else Response False
             (Inr \<lparr>error_code = Some 400,
                   description = Some (lit ''Bad Request: unsupported parse_mode'')\<rparr>))"

section \<open>Facts about the string primitives\<close>



lemma indexOf_from_none: "indexOf_from i s p = - 1 \<longleftrightarrow> \<not> includes_str s p"
proof (induction i s p rule: indexOf_from.induct)
  case (1 i p)
  then show ?case by auto
next
  case (2 i c cs p)
  then show ?case by auto
qed

lemma indexOf_none: "indexOf s p = - 1 \<longleftrightarrow> \<not> includes_str s p"
  by (simp add: indexOf_def indexOf_from_none)

section \<open>Facts about the scoring and the selection loop\<close>

lemma select_part_keep:
  "\<forall>p \<in> set ps. getPartScore p \<le> s \<Longrightarrow> select_part ps b s = b"
  by (induction ps arbitrary: b s) (auto simp: Let_def)

lemma select_part_better:
  "\<exists>p \<in> set ps. s < getPartScore p \<Longrightarrow>
   \<exists>j < length ps. select_part ps b s = Some (ps ! j) \<and> s < getPartScore (ps ! j) \<and>
     (\<forall>k < length ps. getPartScore (ps ! k) \<le> getPartScore (ps ! j)) \<and>
     (\<forall>k < j. getPartScore (ps ! k) < getPartScore (ps ! j))"
proof (induction ps arbitrary: b s)
  case Nil
  then show ?case by simp
next
  case (Cons p ps)
  show ?case
  proof (cases "s < getPartScore p")
    case True
    note better = True
    show ?thesis
    proof (cases "\<exists>q \<in> set ps. getPartScore p < getPartScore q")
      case True
      from Cons.IH[OF True, of "Some p"] obtain j where j: "j < length ps"
        "select_part ps (Some p) (getPartScore p) = Some (ps ! j)"
        "getPartScore p < getPartScore (ps ! j)"
        "\<forall>k < length ps. getPartScore (ps ! k) \<le> getPartScore (ps ! j)"
        "\<forall>k < j. getPartScore (ps ! k) < getPartScore (ps ! j)" by blast
      have "Suc j < length (p # ps)" using j by simp
      moreover have "select_part (p # ps) b s = Some ((p # ps) ! Suc j)"
        using better j by (simp add: Let_def)
      moreover have "s < getPartScore ((p # ps) ! Suc j)" using better j by simp
      moreover have "\<forall>k < length (p # ps). getPartScore ((p # ps) ! k) \<le> getPartScore ((p # ps) ! Suc j)"
        using j by (auto simp: nth_Cons split: nat.splits)
      moreover have "\<forall>k < Suc j. getPartScore ((p # ps) ! k) < getPartScore ((p # ps) ! Suc j)"
        using j by (auto simp: nth_Cons split: nat.splits)
      ultimately show ?thesis by blast
    next
      case False
      then have "\<forall>q \<in> set ps. getPartScore q \<le> getPartScore p" by (auto simp: not_less)
      then have "select_part ps (Some p) (getPartScore p) = Some p" by (rule select_part_keep)
      then have "select_part (p # ps) b s = Some ((p # ps) ! 0)" using better by (simp add: Let_def)
      moreover have "\<forall>k < length (p # ps). getPartScore ((p # ps) ! k) \<le> getPartScore ((p # ps) ! 0)"
        using False by (auto simp: nth_Cons not_less split: nat.splits)
      ultimately show ?thesis using better by (intro exI[of _ 0]) simp
    qed
  next
    case False
    with Cons.prems have ex: "\<exists>q \<in> set ps. s < getPartScore q" by auto
    from Cons.IH[OF ex, of b] obtain j where j: "j < length ps"
        "select_part ps b s = Some (ps ! j)"
        "s < getPartScore (ps ! j)"
        "\<forall>k < length ps. getPartScore (ps ! k) \<le> getPartScore (ps ! j)"
        "\<forall>k < j. getPartScore (ps ! k) < getPartScore (ps ! j)" by blast
    have "Suc j < length (p # ps)" using j by simp
    moreover have "select_part (p # ps) b s = Some ((p # ps) ! Suc j)"
      using False j by (simp add: Let_def)
    moreover have "s < getPartScore ((p # ps) ! Suc j)" using j by simp
    moreover have "\<forall>k < length (p # ps). getPartScore ((p # ps) ! k) \<le> getPartScore ((p # ps) ! Suc j)"
      using j False by (auto simp: nth_Cons split: nat.splits)
    moreover have "\<forall>k < Suc j. getPartScore ((p # ps) ! k) < getPartScore ((p # ps) ! Suc j)"
      using j False by (auto simp: nth_Cons split: nat.splits)
    ultimately show ?thesis by blast
  qed
qed

lemma getPartScore_Nil: "getPartScore [] = 0"
  by (simp add: getPartScore_def lit_def)







lemma select_part_Some_pos:
  "select_part ps None 0 = Some q \<Longrightarrow> q \<in> set ps \<and> 0 < getPartScore q"
proof (cases "\<exists>p \<in> set ps. 0 < getPartScore p")
  case True
  assume sel: "select_part ps None 0 = Some q"
  from select_part_better[OF True, of None] obtain j where "j < length ps"
    "select_part ps None 0 = Some (ps ! j)" "0 < getPartScore (ps ! j)" by blast
  with sel show ?thesis by auto
next
  case False
  assume sel: "select_part ps None 0 = Some q"
  from False have "\<forall>p \<in> set ps. getPartScore p \<le> 0" by auto
  then have "select_part ps None 0 = None" by (rule select_part_keep)
  with sel show ?thesis by simp
qed

lemmas eval_defs = extractEmailContent_def lit_def boundary_re_def ci_literal_def ci_char_def crlf_crlf_def
    isQuote_def isWhiteSpace_def ascii_upper_def split_def extractPartContent_def getPartScore_def indexOf_def
    substring_def substring_from_def clamp_index_def trim_def header_encoding_def header_contentType_def
    transfer_encoding_re_def content_type_re_def decodeContent_def try_catch_def isLineTerminator_def Let_def
    no_readable_content_def extractSimpleEmailBody_def toLowerCase_def toLowerCase_unit_def

lemma exec_regex_boundary_Nil: "exec_regex boundary_re [] = None"
  by (simp add: boundary_re_def ci_literal_def ci_char_def)

section \<open>Selection of the part to extract\<close>




section \<open>Payloads and parts without a blank line\<close>

text \<open>
  Claim C8 says that a selected part without the separator \<^verbatim>\<open>\r\n\r\n\<close>, and a whole
  payload without it in which no boundary is detected, are reported as
  \<^verbatim>\<open>No body content found\<close>.  For the message below, whose selected part is
  \<^verbatim>\<open>Content-Type: text/plain\<close> with nothing after it, the extraction reports
  \<^verbatim>\<open>Invalid part format\<close> instead; and for the empty payload it reports
  \<^verbatim>\<open>Invalid email content\<close>.
\<close>

theorem selected_part_without_blank_line_counterexample:
  "\<not> includes_str (lit ''Content-Type: text/plain'') crlf_crlf \<and>
   select_part (split (lit ''boundary=X'' @ [0x0D, 0x0A] @ lit ''--XContent-Type: text/plain'')
                  (lit ''--'' @ lit ''X'')) None 0
     = Some (lit ''Content-Type: text/plain'') \<and>
   extractEmailContent windows_1252 (lit ''boundary=X'' @ [0x0D, 0x0A] @ lit ''--XContent-Type: text/plain'')
     = Inr \<lparr>body = lit ''Invalid part format'', contentType = lit ''text/plain''\<rparr> \<and>
   extractEmailContent windows_1252 (lit ''boundary=X'' @ [0x0D, 0x0A] @ lit ''--XContent-Type: text/plain'')
     \<noteq> Inr \<lparr>body = lit ''No body content found'', contentType = lit ''text/plain''\<rparr> \<and>
   \<not> includes_str [] crlf_crlf \<and>
   exec_regex boundary_re [] = None \<and>
   extractEmailContent windows_1252 []
     = Inr \<lparr>body = lit ''Invalid email content'', contentType = lit ''text/plain''\<rparr>"
  by (simp add: eval_defs)

text \<open>
  Claim C8, amended.  A non-empty payload in which no boundary is detected and which does
  not contain \<^verbatim>\<open>\r\n\r\n\<close> is reported as \<^verbatim>\<open>No body content found\<close> with content type
  \<^verbatim>\<open>text/plain\<close>; a selected part which does not contain \<^verbatim>\<open>\r\n\r\n\<close> is reported as
  \<^verbatim>\<open>Invalid part format\<close> with content type \<^verbatim>\<open>text/plain\<close>, by
  \<open>extractPartContent\<close> and so by \<open>extractEmailContent\<close>.
\<close>

theorem no_blank_line_sentinels:
  "(rawEmail \<noteq> [] \<and> exec_regex boundary_re rawEmail = None \<and> \<not> includes_str rawEmail crlf_crlf \<longrightarrow>
      extractEmailContent tbl rawEmail
        = Inr \<lparr>body = lit ''No body content found'', contentType = lit ''text/plain''\<rparr>) \<and>
   (exec_regex boundary_re rawEmail = Some boundary \<and>
    select_part (split rawEmail (lit ''--'' @ boundary)) None 0 = Some part \<and>
    \<not> includes_str part crlf_crlf \<longrightarrow>
      extractEmailContent tbl rawEmail
        = Inr \<lparr>body = lit ''Invalid part format'', contentType = lit ''text/plain''\<rparr>) \<and>
   (\<not> includes_str part crlf_crlf \<longrightarrow>
      extractPartContent tbl part
        = Inr \<lparr>body = lit ''Invalid part format'', contentType = lit ''text/plain''\<rparr>)"
proof (intro conjI impI)
  assume "rawEmail \<noteq> [] \<and> exec_regex boundary_re rawEmail = None \<and> \<not> includes_str rawEmail crlf_crlf"
  then show "extractEmailContent tbl rawEmail
        = Inr \<lparr>body = lit ''No body content found'', contentType = lit ''text/plain''\<rparr>"
    by (simp add: extractEmailContent_def extractSimpleEmailBody_def indexOf_none)
next
  assume a: "\<not> includes_str part crlf_crlf"
  then show "extractPartContent tbl part
        = Inr \<lparr>body = lit ''Invalid part format'', contentType = lit ''text/plain''\<rparr>"
    by (simp add: extractPartContent_def indexOf_none)
next
  assume a: "exec_regex boundary_re rawEmail = Some boundary \<and>
    select_part (split rawEmail (lit ''--'' @ boundary)) None 0 = Some part \<and>
    \<not> includes_str part crlf_crlf"
  then have "0 < getPartScore part" using select_part_Some_pos by blast
  then have ne: "part \<noteq> []" using getPartScore_Nil by force
  have raw: "rawEmail \<noteq> []" using a exec_regex_boundary_Nil by force
  have "extractPartContent tbl part
        = Inr \<lparr>body = lit ''Invalid part format'', contentType = lit ''text/plain''\<rparr>"
    using a by (simp add: extractPartContent_def indexOf_none)
  then show "extractEmailContent tbl rawEmail
        = Inr \<lparr>body = lit ''Invalid part format'', contentType = lit ''text/plain''\<rparr>"
    using a ne raw by (simp add: extractEmailContent_def)
qed

text \<open>The theorem at a payload of one header line and at a message whose only scoring
  part is a header line.\<close>

theorem no_blank_line_sentinels_witness:
  "extractEmailContent windows_1252 (lit ''Subject: hello'')
     = Inr \<lparr>body = lit ''No body content found'', contentType = lit ''text/plain''\<rparr> \<and>
   extractEmailContent windows_1252 (lit ''boundary=X'' @ [0x0D, 0x0A] @ lit ''--XContent-Type: text/plain'')
     = Inr \<lparr>body = lit ''Invalid part format'', contentType = lit ''text/plain''\<rparr> \<and>
   extractPartContent windows_1252 (lit ''Content-Type: text/plain'')
     = Inr \<lparr>body = lit ''Invalid part format'', contentType = lit ''text/plain''\<rparr>"
proof -
  have a: "lit ''Subject: hello'' \<noteq> [] \<and> exec_regex boundary_re (lit ''Subject: hello'') = None \<and>
      \<not> includes_str (lit ''Subject: hello'') crlf_crlf"
    by (simp add: eval_defs)
  have b: "exec_regex boundary_re (lit ''boundary=X'' @ [0x0D, 0x0A] @ lit ''--XContent-Type: text/plain'')
       = Some (lit ''X'') \<and>
    select_part (split (lit ''boundary=X'' @ [0x0D, 0x0A] @ lit ''--XContent-Type: text/plain'')
       (lit ''--'' @ lit ''X'')) None 0 = Some (lit ''Content-Type: text/plain'') \<and>
    \<not> includes_str (lit ''Content-Type: text/plain'') crlf_crlf"
    by (simp add: eval_defs)
  from no_blank_line_sentinels[where rawEmail = "lit ''Subject: hello''" and tbl = windows_1252] a
  have 1: "extractEmailContent windows_1252 (lit ''Subject: hello'')
     = Inr \<lparr>body = lit ''No body content found'', contentType = lit ''text/plain''\<rparr>"
    by blast
  from no_blank_line_sentinels[where rawEmail = "lit ''boundary=X'' @ [0x0D, 0x0A] @ lit ''--XContent-Type: text/plain''"
      and boundary = "lit ''X''" and part = "lit ''Content-Type: text/plain''" and tbl = windows_1252] b
  have 2: "extractEmailContent windows_1252 (lit ''boundary=X'' @ [0x0D, 0x0A] @ lit ''--XContent-Type: text/plain'')
     = Inr \<lparr>body = lit ''Invalid part format'', contentType = lit ''text/plain''\<rparr> \<and>
   extractPartContent windows_1252 (lit ''Content-Type: text/plain'')
     = Inr \<lparr>body = lit ''Invalid part format'', contentType = lit ''text/plain''\<rparr>"
    by blast
  from 1 2 show ?thesis by blast
qed


section \<open>What the scoring of parts matches\<close>




section \<open>The content decoder does not throw\<close>

lemma decodeBase64Content_returns: "\<exists>s. decodeBase64Content tbl content = Inr s"
  by (auto simp: decodeBase64Content_def try_catch_def single_byte_decode_def Let_def
      split: sum.splits)

lemma decodeBase64Content_atob_fails:
  "atob (replace_regex [(isWhiteSpace, One, False)] (\<lambda>g. []) content) = Inl e \<Longrightarrow>
   decodeBase64Content tbl content = Inr content"
  by (simp add: decodeBase64Content_def try_catch_def)

text \<open>
  Claim C7.  \<open>decodeContent\<close> returns a string for every content and every encoding, present
  or absent: no exception leaves it.  When \<^verbatim>\<open>atob\<close> rejects the content of a
  \<^verbatim>\<open>base64\<close> body, the result is the content as it was; and when the encoding is absent
  or is neither \<^verbatim>\<open>base64\<close> nor \<^verbatim>\<open>quoted-printable\<close> (in any case of letters), the
  result is the content unchanged.
\<close>

theorem decodeContent_never_throws:
  "(\<exists>s. decodeContent tbl content encoding = Inr s) \<and>
   (map_option toLowerCase encoding = Some (lit ''base64'') \<and>
    atob (replace_regex [(isWhiteSpace, One, False)] (\<lambda>g. []) content) = Inl e \<longrightarrow>
      decodeContent tbl content encoding = Inr content) \<and>
   (map_option toLowerCase encoding \<noteq> Some (lit ''base64'') \<and>
    map_option toLowerCase encoding \<noteq> Some (lit ''quoted-printable'') \<longrightarrow>
      decodeContent tbl content encoding = Inr content) \<and>
   decodeContent tbl content None = Inr content"
proof (intro conjI impI)
  obtain s where s: "decodeBase64Content tbl content = Inr s"
    using decodeBase64Content_returns by blast
  then show "\<exists>s. decodeContent tbl content encoding = Inr s"
    by (simp add: decodeContent_def try_catch_def)
  show "decodeContent tbl content encoding = Inr content"
    if "map_option toLowerCase encoding = Some (lit ''base64'') \<and>
        atob (replace_regex [(isWhiteSpace, One, False)] (\<lambda>g. []) content) = Inl e"
    using that decodeBase64Content_atob_fails[of content e tbl]
    by (simp add: decodeContent_def try_catch_def)
  show "decodeContent tbl content encoding = Inr content"
    if "map_option toLowerCase encoding \<noteq> Some (lit ''base64'') \<and>
        map_option toLowerCase encoding \<noteq> Some (lit ''quoted-printable'')"
    using that by (auto simp: decodeContent_def try_catch_def)
  show "decodeContent tbl content None = Inr content"
    by (simp add: decodeContent_def try_catch_def)
qed

lemmas decode_defs = decodeBase64Content_def atob_def isAsciiWhitespace_def strip_padding_def b64_value_def
  utf8_decode_fatal_def single_byte_decode_def cont_byte_def second_lower_def second_upper_def
  utf16_encode_def utf16_units_def strip_bom_def decodeQuotedPrintable_def isHexDigit_def hex_value_def parseInt16_def chr_def

text \<open>The theorem at the content \<^verbatim>\<open>a*b\<close>, which is not base64, with the encodings
  \<^verbatim>\<open>BASE64\<close> and \<^verbatim>\<open>7bit\<close>.\<close>

theorem decodeContent_never_throws_witness:
  "atob (replace_regex [(isWhiteSpace, One, False)] (\<lambda>g. []) (lit ''a*b'')) = Inl InvalidCharacterError \<and>
   decodeContent windows_1252 (lit ''a*b'') (Some (lit ''BASE64'')) = Inr (lit ''a*b'') \<and>
   decodeContent windows_1252 (lit ''a*b'') (Some (lit ''7bit'')) = Inr (lit ''a*b'')"
proof -
  have h1: "map_option toLowerCase (Some (lit ''BASE64'')) = Some (lit ''base64'')"
    by (simp add: eval_defs)
  have h2: "atob (replace_regex [(isWhiteSpace, One, False)] (\<lambda>g. []) (lit ''a*b'')) = Inl InvalidCharacterError"
    by (simp add: eval_defs decode_defs)
  have h3: "map_option toLowerCase (Some (lit ''7bit'')) \<noteq> Some (lit ''base64'') \<and>
    map_option toLowerCase (Some (lit ''7bit'')) \<noteq> Some (lit ''quoted-printable'')"
    by (simp add: eval_defs)
  from decodeContent_never_throws[where encoding = "Some (lit ''BASE64'')" and content = "lit ''a*b''"
      and e = InvalidCharacterError and tbl = windows_1252] h1 h2
  have a: "decodeContent windows_1252 (lit ''a*b'') (Some (lit ''BASE64'')) = Inr (lit ''a*b'')" by blast
  from decodeContent_never_throws[where encoding = "Some (lit ''7bit'')" and content = "lit ''a*b''"
      and tbl = windows_1252] h3
  have b: "decodeContent windows_1252 (lit ''a*b'') (Some (lit ''7bit'')) = Inr (lit ''a*b'')" by blast
  from a b h2 show ?thesis by blast
qed

section \<open>Rate limiter: the sweep and the admission\<close>


























section \<open>Message transport client: retries and the fallback\<close>

lemmas send_defs = sendTelegramMessage_def attempt_step_def try_block_def after_fallback_def
  is_parse_mode_error_def do_fetch_def backoff_def maxRetries_def

text \<open>
  Claim C2 says that a response with \<open>error_code\<close> 404 or 403 ends the send at once.  The
  error that \<open>after_fallback\<close> throws for it is thrown inside the \<^verbatim>\<open>try\<close> block, so the
  \<^verbatim>\<open>catch\<close> of the same iteration receives it and, before the last attempt, waits and
  lets the loop go on.  Against a transport that always answers 404 the send makes three
  requests and waits twice before the error leaves it.
\<close>

theorem not_found_is_retried:
  "sendTelegramMessage always_not_found id (lit ''@channel'') (lit ''hi'') =
     (Inl (TelegramApiError (Some (lit ''Not Found'')) (Some 404)),
      \<lparr>calls =
         replicate 3 \<lparr>chat_id = lit ''@channel'', message_text = lit ''hi'',
                      parse_mode = Some (lit ''MarkdownV2''), disable_web_page_preview = True\<rparr>,
       sleeps = [2000, 4000]\<rparr>)"
  by (simp add: send_defs always_not_found_def lit_def trim_def isWhiteSpace_def numeral_3_eq_3)

lemma try_block_parse_mode:
  assumes "payload = options \<lparr>chat_id = chatId, message_text = text',
                               parse_mode = Some (lit ''MarkdownV2''),
                               disable_web_page_preview = True\<rparr>"
    and "fetch (length (calls n)) payload = Response False (Inr responseData)"
    and "error_code responseData = Some 400"
    and "description responseData = Some d"
    and "includes_str d (lit ''parse_mode'')"
  shows "calls (snd (try_block fetch options chatId text' attempt n))
           = calls n @ [payload, payload\<lparr>parse_mode := None\<rparr>]"
    and "fetch (Suc (length (calls n))) (payload\<lparr>parse_mode := None\<rparr>) = Response True js \<Longrightarrow>
         try_block fetch options chatId text' attempt n
           = (Return True, n\<lparr>calls := calls n @ [payload, payload\<lparr>parse_mode := None\<rparr>]\<rparr>)"
proof -
  have pm: "is_parse_mode_error responseData"
    using assms(3,4,5) by (simp add: is_parse_mode_error_def)
  show "calls (snd (try_block fetch options chatId text' attempt n))
           = calls n @ [payload, payload\<lparr>parse_mode := None\<rparr>]"
    using assms(2) pm
    by (simp add: try_block_def do_fetch_def assms(1)[symmetric] after_fallback_def backoff_def Let_def
        split: fetch_result.splits)
  show "try_block fetch options chatId text' attempt n
           = (Return True, n\<lparr>calls := calls n @ [payload, payload\<lparr>parse_mode := None\<rparr>]\<rparr>)"
    if "fetch (Suc (length (calls n))) (payload\<lparr>parse_mode := None\<rparr>) = Response True js"
    using assms(2) pm that
    by (simp add: try_block_def do_fetch_def assms(1)[symmetric] Let_def)
qed


lemma attempt_step_calls:
  "calls (snd (attempt_step fetch options chatId text' attempt n))
     = calls (snd (try_block fetch options chatId text' attempt n))"
  by (simp add: attempt_step_def backoff_def split: prod.splits outcome.splits)

lemma send_loop_returns:
  "attempt \<le> maxRetries \<Longrightarrow>
   try_block fetch options chatId text' attempt n = (Return b, n') \<Longrightarrow>
   send_loop fetch options chatId text' attempt n = (Inr b, n')"
  by (simp add: attempt_step_def)

text \<open>
  Claim C3.  Let an attempt of the loop, the \<open>attempt\<close>-th, start in the state \<open>n\<close> of
  the effects, and let the transport answer its request \<open>payload\<close> with a response that is
  not \<^verbatim>\<open>ok\<close>, has \<open>error_code\<close> 400 and a description containing \<^verbatim>\<open>parse_mode\<close>.
  Then the requests of that attempt are exactly two: \<open>payload\<close> and, right after it, the
  same payload without \<open>parse_mode\<close>.  If the answer to the second is \<^verbatim>\<open>ok\<close>, the loop
  returns \<open>True\<close> with no further request and no delay; so does \<open>sendTelegramMessage\<close>
  when this happens in its first attempt.
\<close>

theorem parse_mode_fallback:
  assumes "attempt \<le> maxRetries"
    and "payload = options \<lparr>chat_id = chatId, message_text = text',
                               parse_mode = Some (lit ''MarkdownV2''),
                               disable_web_page_preview = True\<rparr>"
    and "fetch (length (calls n)) payload = Response False (Inr responseData)"
    and "error_code responseData = Some 400"
    and "description responseData = Some d"
    and "includes_str d (lit ''parse_mode'')"
  shows "calls (snd (attempt_step fetch options chatId text' attempt n))
           = calls n @ [payload, payload\<lparr>parse_mode := None\<rparr>] \<and>
         parse_mode (payload\<lparr>parse_mode := None\<rparr>) = None \<and>
         (\<forall>js. fetch (Suc (length (calls n))) (payload\<lparr>parse_mode := None\<rparr>) = Response True js \<longrightarrow>
            send_loop fetch options chatId text' attempt n
              = (Inr True, n\<lparr>calls := calls n @ [payload, payload\<lparr>parse_mode := None\<rparr>]\<rparr>)) \<and>
         (\<forall>js. attempt = 1 \<and> n = \<lparr>calls = [], sleeps = []\<rparr> \<and> trim text' \<noteq> [] \<and>
               fetch 1 (payload\<lparr>parse_mode := None\<rparr>) = Response True js \<longrightarrow>
            sendTelegramMessage fetch options chatId text'
              = (Inr True, \<lparr>calls = [payload, payload\<lparr>parse_mode := None\<rparr>], sleeps = []\<rparr>))"
proof (intro conjI allI impI)
  note tb = try_block_parse_mode[where options = options and chatId = chatId and text' = text'
      and attempt = attempt and fetch = fetch and n = n and payload = payload, OF assms(2,3,4,5,6)]
  show "calls (snd (attempt_step fetch options chatId text' attempt n))
           = calls n @ [payload, payload\<lparr>parse_mode := None\<rparr>]"
    using tb(1) by (simp add: attempt_step_calls)
  show "parse_mode (payload\<lparr>parse_mode := None\<rparr>) = None" by simp
  show "send_loop fetch options chatId text' attempt n
              = (Inr True, n\<lparr>calls := calls n @ [payload, payload\<lparr>parse_mode := None\<rparr>]\<rparr>)"
    if "fetch (Suc (length (calls n))) (payload\<lparr>parse_mode := None\<rparr>) = Response True js" for js
    by (rule send_loop_returns[OF assms(1) tb(2)[OF that]])
  show "sendTelegramMessage fetch options chatId text'
              = (Inr True, \<lparr>calls = [payload, payload\<lparr>parse_mode := None\<rparr>], sleeps = []\<rparr>)"
    if a: "attempt = 1 \<and> n = \<lparr>calls = [], sleeps = []\<rparr> \<and> trim text' \<noteq> [] \<and>
               fetch 1 (payload\<lparr>parse_mode := None\<rparr>) = Response True js" for js
  proof -
    from a have ne: "text' \<noteq> []" by (auto simp: trim_def)
    from a have f: "fetch (Suc (length (calls n))) (payload\<lparr>parse_mode := None\<rparr>) = Response True js"
      by simp
    from send_loop_returns[OF assms(1) tb(2)[OF f]] a ne
    show ?thesis by (simp add: sendTelegramMessage_def)
  qed
qed

text \<open>The theorem at the transport \<open>rejects_markup\<close>, in the first attempt of a send.\<close>

theorem parse_mode_fallback_witness:
  "sendTelegramMessage rejects_markup id (lit ''@channel'') (lit ''a_b'')
     = (Inr True,
        \<lparr>calls = [\<lparr>chat_id = lit ''@channel'', message_text = lit ''a_b'',
                    parse_mode = Some (lit ''MarkdownV2''), disable_web_page_preview = True\<rparr>,
                  \<lparr>chat_id = lit ''@channel'', message_text = lit ''a_b'',
                    parse_mode = None, disable_web_page_preview = True\<rparr>],
         sleeps = []\<rparr>)"
proof -
  let ?p = "\<lparr>chat_id = lit ''@channel'', message_text = lit ''a_b'',
             parse_mode = Some (lit ''MarkdownV2''), disable_web_page_preview = True\<rparr>"
  let ?n = "\<lparr>calls = [], sleeps = []\<rparr>"
  let ?rd = "\<lparr>error_code = Some 400, description = Some (lit ''Bad Request: unsupported parse_mode'')\<rparr>"
  have h1: "(1::nat) \<le> maxRetries" by (simp add: maxRetries_def)
  have h2: "?p = id ?p" by simp
  have h3: "rejects_markup (length (calls ?n)) ?p = Response False (Inr ?rd)"
    by (simp add: rejects_markup_def)
  have h4: "error_code ?rd = Some 400" by simp
  have h5: "description ?rd = Some (lit ''Bad Request: unsupported parse_mode'')" by simp
  have h6: "includes_str (lit ''Bad Request: unsupported parse_mode'') (lit ''parse_mode'')"
    by (simp add: lit_def)
  have h7: "(1::nat) = 1 \<and> ?n = \<lparr>calls = [], sleeps = []\<rparr> \<and> trim (lit ''a_b'') \<noteq> [] \<and>
      rejects_markup 1 (?p\<lparr>parse_mode := None\<rparr>)
        = Response True (Inr \<lparr>error_code = None, description = None\<rparr>)"
    by (simp add: rejects_markup_def trim_def lit_def isWhiteSpace_def)
  from parse_mode_fallback[where options = id and chatId = "lit ''@channel''" and text' = "lit ''a_b''"
      and fetch = rejects_markup and n = ?n and payload = ?p, OF h1 h2 h3 h4 h5 h6] h7
  have "sendTelegramMessage rejects_markup id (lit ''@channel'') (lit ''a_b'')
      = (Inr True, \<lparr>calls = [?p, ?p\<lparr>parse_mode := None\<rparr>], sleeps = []\<rparr>)"
    by blast
  then show ?thesis by simp
qed

section \<open>Text normalizer: lengths\<close>

lemma counts_bounds: "k \<in> set (counts cls q s) \<Longrightarrow> min_reps (cls, q, cap) \<le> k \<and> k \<le> length s"
proof (cases q)
  case (Rep lo hi)
  assume "k \<in> set (counts cls q s)"
  with Rep have k: "lo \<le> k" "k \<le> (case hi of None \<Rightarrow> length (takeWhile cls s) | Some h \<Rightarrow> min h (length (takeWhile cls s)))"
    by (auto simp: Let_def)
  have "length (takeWhile cls s) \<le> length s" by (rule length_takeWhile_le)
  with k(2) have "k \<le> length s" by (cases hi) auto
  with k(1) Rep show ?thesis by simp
qed

lemma match_bounds:
  "match_items its s = Some (n, g) \<Longrightarrow> min_len its \<le> n \<and> n \<le> length s"
  "try_counts cap its s ks = Some (n, g) \<Longrightarrow> \<forall>k \<in> set ks. lo \<le> k \<and> k \<le> length s \<Longrightarrow>
     lo + min_len its \<le> n \<and> n \<le> length s"
proof (induction its s and cap its s ks arbitrary: n g and n g lo rule: match_items_try_counts.induct)
  case (1 s)
  then show ?case by (simp add: min_len_def)
next
  case (2 cls q cap its s)
  have "\<forall>k \<in> set (counts cls q s). min_reps (cls, q, cap) \<le> k \<and> k \<le> length s"
    using counts_bounds by blast
  from 2(1)[OF _ this] 2(2) show ?case by (simp add: min_len_def)
next
  case (3 cap its s)
  then show ?case by simp
next
  case (4 cap its s k ks)
  show ?case
  proof (cases "match_items its (drop k s)")
    case None
    with 4(3) have t: "try_counts cap its s ks = Some (n, g)" by simp
    from 4(4) have ks: "\<forall>k' \<in> set ks. lo \<le> k' \<and> k' \<le> length s" by auto
    from 4(2)[OF None t ks] show ?thesis .
  next
    case (Some r)
    obtain n' g' where r: "r = (n', g')" by (cases r)
    from 4(1)[OF Some[unfolded r]] have b: "min_len its \<le> n'" "n' \<le> length (drop k s)" by auto
    from Some r 4(3) have n: "n = k + n'" by simp
    from 4(4) have "lo \<le> k" "k \<le> length s" by auto
    with b n show ?thesis by auto
  qed
qed

lemma replace_regex_length:
  "(\<forall>g. length (f g) \<le> min_len its) \<Longrightarrow> length (replace_regex its f s) \<le> length s"
proof (induction its f s rule: replace_regex.induct)
  case (1 its f)
  show ?case
  proof (cases "match_items its []")
    case None
    then show ?thesis by simp
  next
    case (Some r)
    obtain n g where r: "r = (n, g)" by (cases r)
    from match_bounds(1)[OF Some[unfolded r]] have "min_len its = 0" by simp
    with 1 have "f g = []" by simp
    with Some r show ?thesis by simp
  qed
next
  case (2 its f c cs)
  show ?case
  proof (cases "match_items its (c # cs)")
    case None
    with "2.IH"(1)[OF None "2.prems"] show ?thesis by simp
  next
    case (Some r)
    obtain n g where r: "r = (n, g)" by (cases r)
    from match_bounds(1)[OF Some[unfolded r]] have b: "min_len its \<le> n" "n \<le> length (c # cs)" by auto
    from "2.prems" have fg: "length (f g) \<le> min_len its" by blast
    show ?thesis
    proof (cases "n = 0")
      case True
      with b fg have "f g = []" by simp
      with "2.IH"(2)[OF Some r[symmetric] True "2.prems"] Some r True show ?thesis by simp
    next
      case False
      from "2.IH"(3)[OF Some r[symmetric] False "2.prems"]
      have "length (replace_regex its f (drop n (c # cs))) \<le> length (c # cs) - n" by simp
      with b fg Some r False show ?thesis by simp
    qed
  qed
qed


lemma min_len_literal: "min_len (literal_re p) = length p"
  by (induction p) (simp_all add: min_len_def literal_re_def chr_def)

lemma repair_length: "length (snd pr) \<le> length (fst pr) \<Longrightarrow> length (repair pr s) \<le> length s"
  unfolding repair_def by (rule replace_regex_length) (simp add: min_len_literal)

lemma fold_repair_length:
  "\<forall>pr \<in> set rs. length (snd pr) \<le> length (fst pr) \<Longrightarrow> length (fold repair rs s) \<le> length s"
proof (induction rs arbitrary: s)
  case Nil
  then show ?case by simp
next
  case (Cons pr rs)
  have "length (fold repair rs (repair pr s)) \<le> length (repair pr s)"
    using Cons by simp
  also have "\<dots> \<le> length s" using Cons.prems by (simp add: repair_length)
  finally show ?case by simp
qed

lemma normalized_lines_length: "length (normalized_lines t) \<le> length t"
proof -
  have a: "length (replace_regex [chr 0x0D, chr 0x0A] (\<lambda>g. [0x0A]) t) \<le> length t"
    by (rule replace_regex_length) (simp add: min_len_def chr_def)
  have b: "length (replace_regex [chr 0x0D] (\<lambda>g. [0x0A]) s) \<le> length s" for s
    by (rule replace_regex_length) (simp add: min_len_def chr_def)
  have c: "length (replace_regex [(\<lambda>c. c = 0x0A, Rep 3 None, False)] (\<lambda>g. [0x0A, 0x0A]) s) \<le> length s" for s
    by (rule replace_regex_length) (simp add: min_len_def)
  have "length (normalized_lines t)
      \<le> length (replace_regex [chr 0x0D] (\<lambda>g. [0x0A])
                  (replace_regex [chr 0x0D, chr 0x0A] (\<lambda>g. [0x0A]) t))"
    unfolding normalized_lines_def by (rule c)
  also have "\<dots> \<le> length (replace_regex [chr 0x0D, chr 0x0A] (\<lambda>g. [0x0A]) t)"
    by (rule b)
  also have "\<dots> \<le> length t" by (rule a)
  finally show ?thesis .
qed

lemma trim_length: "length (trim s) \<le> length s"
proof -
  have "length (dropWhile isWhiteSpace (rev (dropWhile isWhiteSpace s)))
      \<le> length (rev (dropWhile isWhiteSpace s))"
    by (rule length_dropWhile_le)
  also have "\<dots> = length (dropWhile isWhiteSpace s)" by simp
  also have "\<dots> \<le> length s" by (rule length_dropWhile_le)
  finally show ?thesis by (simp add: trim_def)
qed

lemma cleaned_normalized: "cleaned t = trim (fold repair repairs (normalized_lines t))"
  by (simp add: cleaned_def normalized_lines_def)

lemma cleaned_length: "length (cleaned t) \<le> length t"
proof -
  have "\<forall>pr \<in> set repairs. length (snd pr) \<le> length (fst pr)"
    by (simp add: repairs_def)
  then have "length (fold repair repairs (normalized_lines t)) \<le> length (normalized_lines t)"
    by (rule fold_repair_length)
  with trim_length[of "fold repair repairs (normalized_lines t)"] normalized_lines_length[of t]
  show ?thesis by (simp add: cleaned_normalized)
qed

lemma cleaned_Nil: "cleaned [] = []"
  using cleaned_length[of "[]"] by simp

lemmas clean_defs = cleanText_def cleaned_def normalized_lines_def repairs_def repair_def literal_re_def
  chr_def trim_def isWhiteSpace_def substring_def clamp_index_def truncation_marker_def lit_def

section \<open>Text normalizer: truncation\<close>

text \<open>
  Claim C5 says that an input longer than \<open>maxLength\<close> gives its first \<open>maxLength\<close>
  characters and the marker, and that a shorter input is changed by the line-ending and
  blank-line steps only.  The input \<^verbatim>\<open>"a "\<close> is longer than 1, and \<open>cleanText\<close> returns
  \<^verbatim>\<open>"a"\<close> for it, without the marker; the two code units \<open>C3 A9\<close> are not longer than
  5 and hold no line ending, and \<open>cleanText\<close> returns the single code unit \<open>E9\<close> for them.
\<close>

theorem cleanText_counterexample:
  "int (length (lit ''a '')) > 1 \<and>
   cleanText (lit ''a '') 1 = lit ''a'' \<and>
   cleanText (lit ''a '') 1 \<noteq> take 1 (lit ''a '') @ truncation_marker \<and>
   int (length [0xC3, 0xA9 :: nat]) \<le> 5 \<and>
   normalized_lines [0xC3, 0xA9] = [0xC3, 0xA9] \<and>
   cleanText [0xC3, 0xA9] 5 = [0xE9]"
  by (simp add: clean_defs)

text \<open>
  Claim C5, amended.  Let \<open>cleaned t\<close> be the input after the line-ending and blank-line
  steps, the repair table and \<^verbatim>\<open>trim()\<close>; it is never longer than the input.  For
  \<open>maxLength \<ge> 0\<close>: if \<open>cleaned t\<close> is longer than \<open>maxLength\<close>, \<open>cleanText\<close> returns exactly
  its first \<open>maxLength\<close> code units followed by the marker; otherwise, and so for every
  input not longer than \<open>maxLength\<close>, it returns \<open>cleaned t\<close>.
\<close>

theorem cleanText_truncates_cleaned:
  assumes "0 \<le> maxLength"
  shows "(maxLength < int (length (cleaned t)) \<longrightarrow>
            cleanText t maxLength = take (nat maxLength) (cleaned t) @ truncation_marker \<and>
            length (take (nat maxLength) (cleaned t)) = nat maxLength) \<and>
         (int (length (cleaned t)) \<le> maxLength \<longrightarrow> cleanText t maxLength = cleaned t) \<and>
         (int (length t) \<le> maxLength \<longrightarrow> cleanText t maxLength = cleaned t) \<and>
         cleaned t = trim (fold repair repairs (normalized_lines t)) \<and>
         length (cleaned t) \<le> length t"
proof (intro conjI impI)
  show "cleanText t maxLength = take (nat maxLength) (cleaned t) @ truncation_marker"
    if "maxLength < int (length (cleaned t))"
  proof -
    from that assms have ne: "t \<noteq> []" using cleaned_Nil by auto
    from that assms have le: "nat maxLength \<le> length (cleaned t)" by linarith
    have "clamp_index (cleaned t) 0 = 0" by (simp add: clamp_index_def)
    moreover have "clamp_index (cleaned t) maxLength = nat maxLength"
      using assms le by (simp add: clamp_index_def)
    ultimately have "substring (cleaned t) 0 maxLength = take (nat maxLength) (cleaned t)"
      by (simp add: substring_def)
    with that ne show ?thesis by (simp add: cleanText_def)
  qed
  show "length (take (nat maxLength) (cleaned t)) = nat maxLength"
    if "maxLength < int (length (cleaned t))"
    using that assms by simp
  show c: "cleanText t maxLength = cleaned t" if "int (length (cleaned t)) \<le> maxLength"
    using that by (simp add: cleanText_def cleaned_Nil)
  show "cleanText t maxLength = cleaned t" if "int (length t) \<le> maxLength"
    using that cleaned_length[of t] by (simp add: cleanText_def cleaned_Nil)
  show "cleaned t = trim (fold repair repairs (normalized_lines t))"
    by (rule cleaned_normalized)
  show "length (cleaned t) \<le> length t"
    by (rule cleaned_length)
qed

text \<open>The theorem at an input that is cut and at one that is not.\<close>

theorem cleanText_truncates_cleaned_witness:
  "cleanText (lit ''hello world  '') 5 = lit ''hello'' @ truncation_marker \<and>
   cleanText (lit ''  hi'') 5 = lit ''hi''"
proof -
  have h: "(0::int) \<le> 5" by simp
  have c1: "cleaned (lit ''hello world  '') = lit ''hello world''"
    by (simp add: clean_defs)
  have c2: "cleaned (lit ''  hi'') = lit ''hi''"
    by (simp add: clean_defs)
  have l1: "5 < int (length (cleaned (lit ''hello world  '')))"
    unfolding c1 by (simp add: lit_def)
  have l2: "int (length (cleaned (lit ''  hi''))) \<le> 5"
    unfolding c2 by (simp add: lit_def)
  from cleanText_truncates_cleaned[OF h, of "lit ''hello world  ''"] l1
  have "cleanText (lit ''hello world  '') 5
      = take (nat 5) (cleaned (lit ''hello world  '')) @ truncation_marker"
    by blast
  then have a: "cleanText (lit ''hello world  '') 5 = lit ''hello'' @ truncation_marker"
    unfolding c1 by (simp add: lit_def)
  from cleanText_truncates_cleaned[OF h, of "lit ''  hi''"] l2
  have "cleanText (lit ''  hi'') 5 = cleaned (lit ''  hi'')"
    by blast
  then have b: "cleanText (lit ''  hi'') 5 = lit ''hi''"
    unfolding c2 .
  from a b show ?thesis by blast
qed

section \<open>Base64: decoding what was encoded\<close>

















section \<open>UTF-8: decoding what was encoded\<close>









section \<open>The base64 decoder of the worker\<close>


















section \<open>Base64 round trip\<close>




end
